theory Spec2Isabelle
  imports Complex_Main "HOL-Library.AList"
begin

section \<open>Data model of a room (server/ServerGame.js)\<close>

text \<open>
  JavaScript numbers that carry time or geometry are modelled as \<open>real\<close>; edge indices,
  scores and the sentinel \<open>-1\<close> are \<open>int\<close>. The \<open>Map\<close> of players is an association
  list in insertion order (\<open>AList.update\<close> is \<open>Map.set\<close>, \<open>AList.delete\<close> is
  \<open>Map.delete\<close>, \<open>map_of\<close> is \<open>Map.get\<close>); the \<open>Set\<close> of ready edges is a list
  without repetition in insertion order.
\<close>

datatype phase = COUNTDOWN | PLAYING | SCORING | TERMINATED

record ball =
  ball_x :: real
  ball_y :: real
  ball_vx :: real
  ball_vy :: real

record paddle =
  edgeIndex :: int
  position :: real
  width :: real
  moveDirection :: int

text \<open>The payload of a \<open>gameState\<close> message, field by field as \<open>broadcastState\<close> builds it
  (the wall-clock \<open>timestamp\<close> is left out).\<close>

record snapshot =
  snap_ball :: ball
  snap_rotation :: real
  snap_rotationSpeed :: real
  snap_rotationDirection :: real
  snap_paddles :: "(int \<times> real \<times> real) list"
  snap_readyEdges :: "int list"
  snap_difficulty :: real
  snap_gameState :: phase
  snap_score :: int
  snap_lastScore :: int
  snap_finalTime :: int
  snap_timeElapsed :: real
  snap_scoreDisplayTimer :: real
  snap_countdownTimer :: real
  snap_celebrationTimer :: real

text \<open>What \<open>io.to(roomId).emit\<close> sends: \<open>gameState\<close> with its snapshot, and
  \<open>gameTerminated\<close> with reason, lastScore and finalTime.\<close>

datatype message =
  GameStateMsg snapshot
| GameTerminatedMsg string int int

text \<open>
  The fields of a \<open>ServerGame\<close> object: its own (\<open>roomId\<close> to \<open>scoreDisplayTimer\<close>) and
  the ones it reads or writes on its base class. \<open>interval\<close> tells whether the timer armed
  by \<open>start\<close> is still armed; \<open>outbox\<close> collects what the object emitted to its room,
  oldest first.
\<close>

record game =
  roomId :: string
  players :: "(string \<times> int) list"
  readyEdges :: "int list"
  running :: bool
  interval :: bool
  lastTime :: real
  scoreDisplayTimer :: real
  paddles :: "paddle list"
  sides :: int
  rotation :: real
  rotationSpeed :: real
  rotationDirection :: real
  gameBall :: ball
  difficulty :: real
  gameState :: phase
  score :: int
  lastScore :: int
  finalTime :: int
  timeElapsed :: real
  countdownTimer :: real
  celebrationTimer :: real
  restarting :: bool
  outbox :: "message list"

text \<open>
  What the code reads from outside ServerGame.js: the monotonic clock
  (\<open>performance.now()\<close>, in \<open>now\<close>) and the modules it imports, game/BaseGame.js,
  game/Paddle.js and game/Constants.js. Their constants and methods are parameters: the ball a reset puts back, the width of a new paddle, the
  object the base constructor builds, the base class's \<open>update\<close> (\<open>Inl\<close> when it throws,
  with the state it left) and \<open>Paddle.move\<close>.
\<close>

record env =
  now :: real
  startBall :: ball
  paddleWidth :: real
  superGame :: game
  superUpdate :: "real \<Rightarrow> game \<Rightarrow> game + game"
  paddleMove :: "int \<Rightarrow> real \<Rightarrow> paddle \<Rightarrow> paddle"

section \<open>The absent base class, from the specification\<close>

text \<open>Modelled from the spec: the Paddle constructor (game/Paddle.js) is missing. A paddle
  has an edge index, a normalized position, a width and a pending move direction; a new
  one stands where a restart puts it (0.5, not moving).\<close>

definition newPaddle :: "env \<Rightarrow> int \<Rightarrow> paddle" where
  "newPaddle E e = \<lparr>edgeIndex = e, position = 0.5, width = paddleWidth E, moveDirection = 0\<rparr>"

text \<open>Modelled from the spec: BaseGame.setGameState is missing. The match phase is one
  value of the room; setting it stores the new phase.\<close>

definition setGameState :: "phase \<Rightarrow> game \<Rightarrow> game" where
  "setGameState ph g = g\<lparr>gameState := ph\<rparr>"

text \<open>Modelled from the spec: BaseGame.resetState is missing. On the way to COUNTDOWN the
  machine resets state (ball, paddles, ready-edge set); the paddles and the ready-edge set
  are reset by ServerGame.resetGame itself, the ball is put back by the base class.\<close>

definition resetState :: "env \<Rightarrow> game \<Rightarrow> game" where
  "resetState E g = g\<lparr>gameBall := startBall E\<rparr>"

section \<open>ServerGame\<close>

definition newServerGame :: "env \<Rightarrow> string \<Rightarrow> game" where
  "newServerGame E rid =
     (superGame E)\<lparr>roomId := rid, players := [], readyEdges := [], running := False,
       interval := False, lastTime := 0, scoreDisplayTimer := 0, outbox := []\<rparr>"

definition snapshotOf :: "game \<Rightarrow> snapshot" where
  "snapshotOf g =
     \<lparr>snap_ball = gameBall g,
      snap_rotation = rotation g,
      snap_rotationSpeed = rotationSpeed g,
      snap_rotationDirection = rotationDirection g,
      snap_paddles = map (\<lambda>p. (edgeIndex p, position p, width p)) (paddles g),
      snap_readyEdges = readyEdges g,
      snap_difficulty = difficulty g,
      snap_gameState = gameState g,
      snap_score = score g,
      snap_lastScore = lastScore g,
      snap_finalTime = finalTime g,
      snap_timeElapsed = timeElapsed g,
      snap_scoreDisplayTimer = scoreDisplayTimer g,
      snap_countdownTimer = countdownTimer g,
      snap_celebrationTimer = celebrationTimer g\<rparr>"

definition broadcastState :: "game \<Rightarrow> game" where
  "broadcastState g = g\<lparr>outbox := outbox g @ [GameStateMsg (snapshotOf g)]\<rparr>"

text \<open>The search loop of \<open>addPlayer\<close>:
  \<^verbatim>\<open>while (occupiedIndices.has(edgeIndex) && edgeIndex < this.polygon.sides) edgeIndex++\<close>\<close>

function firstFreeEdge :: "int set \<Rightarrow> int \<Rightarrow> int \<Rightarrow> int" where
  "firstFreeEdge occupiedIndices n e =
     (if e \<in> occupiedIndices \<and> e < n then firstFreeEdge occupiedIndices n (e + 1) else e)"
  by pat_completeness auto
termination
  by (relation "measure (\<lambda>(occupiedIndices, n, e). nat (n - e))") auto

declare firstFreeEdge.simps [simp del]

text \<open>\<open>addPlayer\<close> returns the edge index (or \<open>-1\<close>) and the room.\<close>

definition addPlayer :: "env \<Rightarrow> string \<Rightarrow> game \<Rightarrow> int \<times> game" where
  "addPlayer E socketId g =
     (if int (length (paddles g)) \<ge> sides g then (-1, g)
      else
        let occupiedIndices = set (map edgeIndex (paddles g));
            e = firstFreeEdge occupiedIndices (sides g) 0
        in if e \<ge> sides g then (-1, g)
           else (e, broadcastState
                      (g\<lparr>paddles := paddles g @ [newPaddle E e],
                         players := AList.update socketId e (players g)\<rparr>)))"

definition resetGame :: "env \<Rightarrow> game \<Rightarrow> game" where
  "resetGame E g =
     (if restarting g then g
      else
        let g1 = g\<lparr>restarting := True\<rparr>;
            g2 = setGameState COUNTDOWN g1;
            g3 = resetState E g2;
            g4 = g3\<lparr>readyEdges := []\<rparr>;
            g5 = g4\<lparr>paddles := map (\<lambda>p. p\<lparr>position := 0.5, moveDirection := 0\<rparr>) (paddles g4)\<rparr>;
            g6 = g5\<lparr>lastTime := now E\<rparr>;
            g7 = broadcastState g6
        in g7\<lparr>restarting := False\<rparr>)"

definition checkAllReady :: "env \<Rightarrow> game \<Rightarrow> game" where
  "checkAllReady E g =
     (if restarting g then g
      else if gameState g \<noteq> SCORING \<or> players g = [] then g
      else if celebrationTimer g > 0 then g
      else if list_all (\<lambda>idx. idx \<in> set (readyEdges g)) (map snd (players g))
           then resetGame E g
           else g)"

definition terminateGame :: "string \<Rightarrow> game \<Rightarrow> game" where
  "terminateGame reason g =
     (let g1 = setGameState TERMINATED g;
          g2 = g1\<lparr>running := False, interval := False\<rparr>
      in g2\<lparr>outbox := outbox g2 @ [GameTerminatedMsg reason (score g2) \<lfloor>timeElapsed g2\<rfloor>]\<rparr>)"

definition removePlayer :: "env \<Rightarrow> string \<Rightarrow> game \<Rightarrow> game" where
  "removePlayer E socketId g =
     (case map_of (players g) socketId of
        None \<Rightarrow> g
      | Some e \<Rightarrow>
          let g1 = g\<lparr>players := AList.delete socketId (players g)\<rparr>;
              g2 = g1\<lparr>readyEdges := removeAll e (readyEdges g1)\<rparr>;
              g3 = g2\<lparr>paddles := filter (\<lambda>p. edgeIndex p \<noteq> e) (paddles g2)\<rparr>;
              g4 = checkAllReady E (broadcastState g3)
          in if running g4 \<and> gameState g4 = PLAYING
             then terminateGame ''A player left the game'' g4
             else g4)"

text \<open>\<open>Set.add\<close> on the insertion-ordered ready set.\<close>

definition readyAdd :: "int \<Rightarrow> int list \<Rightarrow> int list" where
  "readyAdd e es = (if e \<in> set es then es else es @ [e])"

definition toggleReady :: "env \<Rightarrow> string \<Rightarrow> bool \<Rightarrow> game \<Rightarrow> game" where
  "toggleReady E socketId isReady g =
     (case map_of (players g) socketId of
        None \<Rightarrow> g
      | Some e \<Rightarrow>
          let g1 = g\<lparr>readyEdges := (if isReady then readyAdd e (readyEdges g)
                                    else removeAll e (readyEdges g))\<rparr>
          in checkAllReady E (broadcastState g1))"

text \<open>\<open>paddles.find(p => p.edgeIndex === index)\<close> followed by the assignment to the paddle
  found: the first paddle on that edge gets the direction.\<close>

fun setFirstDirection :: "int \<Rightarrow> int \<Rightarrow> paddle list \<Rightarrow> paddle list" where
  "setFirstDirection index dir [] = []"
| "setFirstDirection index dir (p # ps) =
     (if edgeIndex p = index then p\<lparr>moveDirection := dir\<rparr> # ps
      else p # setFirstDirection index dir ps)"

definition handleInput :: "string \<Rightarrow> int \<Rightarrow> game \<Rightarrow> game" where
  "handleInput socketId dir g =
     (if gameState g = SCORING then g
      else case map_of (players g) socketId of
             None \<Rightarrow> g
           | Some index \<Rightarrow> g\<lparr>paddles := setFirstDirection index dir (paddles g)\<rparr>)"

definition start :: "env \<Rightarrow> game \<Rightarrow> game" where
  "start E g = g\<lparr>running := True, lastTime := now E, interval := True\<rparr>"

definition stop :: "game \<Rightarrow> game" where
  "stop g = g\<lparr>running := False, interval := False\<rparr>"

definition update :: "env \<Rightarrow> real \<Rightarrow> game \<Rightarrow> game + game" where
  "update E dt g =
     (case superUpdate E dt g of
        Inl g' \<Rightarrow> Inl g'
      | Inr g' \<Rightarrow>
          Inr (g'\<lparr>paddles := map (\<lambda>p. if moveDirection p \<noteq> 0
                                      then paddleMove E (moveDirection p) dt p else p)
                                (paddles g')\<rparr>))"

text \<open>The time delta of \<open>loop\<close>, in seconds, from the previous and the current clock
  reading in milliseconds.\<close>

definition loopDt :: "real \<Rightarrow> real \<Rightarrow> real" where
  "loopDt lastT time = (let dt = (time - lastT) / 1000 in if dt > 0.1 then 0.1 else dt)"

definition loop :: "env \<Rightarrow> game \<Rightarrow> game" where
  "loop E g =
     (let time = now E;
          dt = loopDt (lastTime g) time;
          g1 = g\<lparr>lastTime := time\<rparr>
      in case update E dt g1 of
           Inr g2 \<Rightarrow> broadcastState g2
         | Inl g2 \<Rightarrow> stop g2)"

text \<open>The timer armed by \<open>setInterval\<close> calls \<open>loop\<close> until \<open>clearInterval\<close> disarms it.\<close>

definition tick :: "env \<Rightarrow> game \<Rightarrow> game" where
  "tick E g = (if interval g then loop E g else g)"

definition onCelebrationEnd :: "env \<Rightarrow> game \<Rightarrow> game" where
  "onCelebrationEnd E g = checkAllReady E g"

text \<open>A sequence of \<open>playerReady\<close> messages, each a connection id and a ready value,
  applied in order.\<close>

fun toggleReadyAll :: "env \<Rightarrow> (string \<times> bool) list \<Rightarrow> game \<Rightarrow> game" where
  "toggleReadyAll E [] g = g"
| "toggleReadyAll E ((socketId, isReady) # calls) g =
     toggleReadyAll E calls (toggleReady E socketId isReady g)"

section \<open>The room registry and the socket handlers (server entry point)\<close>

text \<open>
  \<open>ServerGame\<close> objects are shared by reference between the registry \<open>games\<close> and the
  closures of the socket listeners, so the objects live in a store (\<open>heap\<close>, addressed by
  allocation order) and the registry and the listeners hold addresses. A disconnect
  listener is the closure of \<open>socket.on('disconnect', ...)\<close>: its socket id, the game it
  captured and the room id it captured. \<open>sent\<close> collects what \<open>socket.emit\<close> sent to single
  sockets. Room membership inside socket.io (\<open>socket.join\<close>) is not modelled.
\<close>

datatype joinData =
  RoomName string
| JoinRequest string "string option"

datatype reply =
  InitMsg int int string
| ErrorMsg string string string

record server =
  instanceId :: string
  isFlyInstance :: bool
  heap :: "game list"
  games :: "(string \<times> nat) list"
  inputListener :: "(string \<times> nat) list"
  readyListener :: "(string \<times> nat) list"
  disconnectListeners :: "(string \<times> nat \<times> string) list"
  sent :: "(string \<times> reply) list"

text \<open>JavaScript truthiness of a value that is a string or absent.\<close>

definition truthy :: "string option \<Rightarrow> bool" where
  "truthy v = (case v of None \<Rightarrow> False | Some s \<Rightarrow> s \<noteq> [])"

text \<open>The closure registered by \<open>socket.on('disconnect', ...)\<close> inside the joinRoom
  handler, with the game and room id it captured.\<close>

definition onDisconnect :: "env \<Rightarrow> string \<Rightarrow> nat \<times> string \<Rightarrow> server \<Rightarrow> server" where
  "onDisconnect E socketId h S =
     (case h of (ref, rid) \<Rightarrow>
        let game = removePlayer E socketId (heap S ! ref)
        in if players game = []
           then S\<lparr>heap := (heap S)[ref := stop game], games := AList.delete rid (games S)\<rparr>
           else S\<lparr>heap := (heap S)[ref := game]\<rparr>)"

text \<open>A socket's disconnect event runs its disconnect listeners in registration order;
  the socket and its listeners are gone afterwards.\<close>

definition disconnectSocket :: "env \<Rightarrow> string \<Rightarrow> server \<Rightarrow> server" where
  "disconnectSocket E socketId S =
     (let hs = map snd (filter (\<lambda>l. fst l = socketId) (disconnectListeners S));
          S1 = fold (onDisconnect E socketId) hs S
      in S1\<lparr>inputListener := AList.delete socketId (inputListener S1),
            readyListener := AList.delete socketId (readyListener S1),
            disconnectListeners := filter (\<lambda>l. fst l \<noteq> socketId) (disconnectListeners S1)\<rparr>)"

text \<open>The part of the joinRoom handler after the room has been looked up or created:
  \<open>addPlayer\<close>, the \<open>init\<close> reply and the three listeners.\<close>

definition admit :: "env \<Rightarrow> string \<Rightarrow> string \<Rightarrow> nat \<Rightarrow> server \<Rightarrow> server" where
  "admit E socketId rid ref S =
     (case addPlayer E socketId (heap S ! ref) of (playerIndex, game) \<Rightarrow>
        S\<lparr>heap := (heap S)[ref := game],
          sent := sent S @ [(socketId, InitMsg playerIndex (sides game) (instanceId S))],
          inputListener := AList.update socketId ref (inputListener S),
          readyListener := AList.update socketId ref (readyListener S),
          disconnectListeners := disconnectListeners S @ [(socketId, ref, rid)]\<rparr>)"

definition joinRoom :: "env \<Rightarrow> string \<Rightarrow> joinData \<Rightarrow> server \<Rightarrow> server" where
  "joinRoom E socketId data S =
     (let rid = (case data of RoomName r \<Rightarrow> r | JoinRequest r i \<Rightarrow> r);
          requestedInstance = (case data of RoomName r \<Rightarrow> None | JoinRequest r i \<Rightarrow> i)
      in if truthy requestedInstance \<and> requestedInstance \<noteq> Some (instanceId S)
            \<and> isFlyInstance S
         then disconnectSocket E socketId
                (S\<lparr>sent := sent S @ [(socketId,
                     ErrorMsg ''Connected to wrong instance'' (the requestedInstance)
                       (instanceId S))]\<rparr>)
         else case map_of (games S) rid of
                None \<Rightarrow>
                  admit E socketId rid (length (heap S))
                    (S\<lparr>heap := heap S @ [start E (newServerGame E rid)],
                       games := AList.update rid (length (heap S)) (games S)\<rparr>)
              | Some ref \<Rightarrow> admit E socketId rid ref S)"

definition onInput :: "string \<Rightarrow> int \<Rightarrow> server \<Rightarrow> server" where
  "onInput socketId dir S =
     (case map_of (inputListener S) socketId of
        None \<Rightarrow> S
      | Some ref \<Rightarrow> S\<lparr>heap := (heap S)[ref := handleInput socketId dir (heap S ! ref)]\<rparr>)"

definition onPlayerReady :: "env \<Rightarrow> string \<Rightarrow> bool \<Rightarrow> server \<Rightarrow> server" where
  "onPlayerReady E socketId ready S =
     (case map_of (readyListener S) socketId of
        None \<Rightarrow> S
      | Some ref \<Rightarrow> S\<lparr>heap := (heap S)[ref := toggleReady E socketId ready (heap S ! ref)]\<rparr>)"

text \<open>
  The transport-level router. A request carries its parsed URL (path and the \<open>instance\<close>
  query parameter; \<open>None\<close> when \<open>new URL\<close> throws) and the \<open>x-fly-instance\<close> header. The result
  is the boolean the function returns and the redirect it wrote, if any: the target
  instance, and whether it was written raw on an upgrade socket.
\<close>

record request =
  reqUrl :: "(string \<times> string option) option"
  flyInstanceHeader :: "string option"

definition startsWith :: "string \<Rightarrow> string \<Rightarrow> bool" where
  "startsWith s p = (take (length p) s = p)"

definition handleFlyInstanceRouting ::
    "server \<Rightarrow> request \<Rightarrow> bool \<Rightarrow> bool \<times> (string \<times> bool) option" where
  "handleFlyInstanceRouting S req isUpgrade =
     (if \<not> isFlyInstance S then (False, None)
      else case reqUrl req of
             None \<Rightarrow> (False, None)
           | Some (pathname, queryInstance) \<Rightarrow>
               if \<not> startsWith pathname ''/socket.io/'' then (False, None)
               else
                 let targetInstance =
                       (if truthy queryInstance then queryInstance else flyInstanceHeader req)
                 in if truthy targetInstance \<and> targetInstance \<noteq> Some (instanceId S)
                    then (True, Some (the targetInstance, isUpgrade))
                    else (False, None))"

text \<open>\<open>allowRequest\<close> of the socket.io server: whether the handshake is accepted.\<close>

definition allowRequest :: "server \<Rightarrow> string option \<Rightarrow> string option \<Rightarrow> bool" where
  "allowRequest S queryInstance header =
     (let targetInstance = (if truthy queryInstance then queryInstance else header)
      in \<not> (truthy targetInstance \<and> targetInstance \<noteq> Some (instanceId S)
            \<and> isFlyInstance S))"

section \<open>Invariant of a room\<close>

text \<open>The occupied edges are the edge indices of the paddles.\<close>

definition occupied :: "game \<Rightarrow> int set" where
  "occupied g = set (map edgeIndex (paddles g))"

text \<open>The invariant as C10 words it: paddle edges pairwise distinct, equal as a set to the
  values of the players map, ready edges among them.\<close>

definition roomInv :: "game \<Rightarrow> bool" where
  "roomInv g \<longleftrightarrow>
     distinct (map edgeIndex (paddles g))
     \<and> set (map edgeIndex (paddles g)) = set (map snd (players g))
     \<and> set (readyEdges g) \<subseteq> set (map edgeIndex (paddles g))"

section \<open>Example rooms\<close>

definition blankGame :: game where
  "blankGame =
     \<lparr>roomId = [], players = [], readyEdges = [], running = False, interval = False,
      lastTime = 0, scoreDisplayTimer = 0, paddles = [], sides = 5, rotation = 0,
      rotationSpeed = 0, rotationDirection = 1,
      gameBall = \<lparr>ball_x = 0, ball_y = 0, ball_vx = 0, ball_vy = 0\<rparr>,
      difficulty = 1, gameState = COUNTDOWN, score = 0, lastScore = 0, finalTime = 0,
      timeElapsed = 0, countdownTimer = 3, celebrationTimer = 0, restarting = False,
      outbox = []\<rparr>"

definition exampleEnv :: env where
  "exampleEnv =
     \<lparr>now = 2000,
      startBall = \<lparr>ball_x = 0, ball_y = 0, ball_vx = 0, ball_vy = 0\<rparr>,
      paddleWidth = 0.5,
      superGame = blankGame,
      superUpdate = (\<lambda>dt g. Inr g),
      paddleMove = (\<lambda>dir dt p. p)\<rparr>"

text \<open>A started room with connections a and b on edges 0 and 1.\<close>

definition twoPlayers :: game where
  "twoPlayers =
     blankGame\<lparr>roomId := ''r'', running := True, interval := True, lastTime := 1000,
       players := [(''a'', 0), (''b'', 1)],
       paddles := [\<lparr>edgeIndex = 0, position = 0.5, width = 0.5, moveDirection = 0\<rparr>,
                   \<lparr>edgeIndex = 1, position = 0.5, width = 0.5, moveDirection = 0\<rparr>]\<rparr>"

text \<open>The same room just after a goal (celebration running), and later with the
  celebration over and both edges ready.\<close>

definition celebrating :: game where
  "celebrating = twoPlayers\<lparr>gameState := SCORING, celebrationTimer := 2.5\<rparr>"

definition allReady :: game where
  "allReady = twoPlayers\<lparr>gameState := SCORING, celebrationTimer := 0, readyEdges := [1, 0]\<rparr>"

text \<open>The room with two players on a two-sided polygon: every edge is occupied.\<close>

definition fullRoom :: game where
  "fullRoom = twoPlayers\<lparr>sides := 2\<rparr>"

text \<open>Tells a \<open>gameState\<close> broadcast from the other messages of a room.\<close>

fun isGameState :: "message \<Rightarrow> bool" where
  "isGameState (GameStateMsg s) = True"
| "isGameState (GameTerminatedMsg r l f) = False"

text \<open>The room with two players in the middle of a match.\<close>

definition playing :: game where
  "playing = twoPlayers\<lparr>gameState := PLAYING, score := 5, timeElapsed := 30.7\<rparr>"

text \<open>A room with the single connection a, and a server that holds just this room.\<close>

definition lastPlayer :: game where
  "lastPlayer =
     twoPlayers\<lparr>gameState := SCORING, players := [(''a'', 0)],
       paddles := [\<lparr>edgeIndex = 0, position = 0.5, width = 0.5, moveDirection = 0\<rparr>]\<rparr>"

definition oneRoomServer :: server where
  "oneRoomServer =
     \<lparr>instanceId = ''local'', isFlyInstance = False, heap = [lastPlayer],
      games = [(''r'', 0)], inputListener = [(''a'', 0)], readyListener = [(''a'', 0)],
      disconnectListeners = [(''a'', 0, ''r'')], sent = [(''a'', InitMsg 0 5 ''local'')]\<rparr>"

text \<open>A server off Fly.io with no room yet, and instance A on Fly.io holding the room with
  two players.\<close>

definition localServer :: server where
  "localServer =
     \<lparr>instanceId = ''local'', isFlyInstance = False, heap = [], games = [],
      inputListener = [], readyListener = [], disconnectListeners = [], sent = []\<rparr>"

definition flyServer :: server where
  "flyServer =
     \<lparr>instanceId = ''A'', isFlyInstance = True, heap = [twoPlayers], games = [(''r'', 0)],
      inputListener = [(''a'', 0), (''b'', 0)], readyListener = [(''a'', 0), (''b'', 0)],
      disconnectListeners = [(''a'', 0, ''r''), (''b'', 0, ''r'')],
      sent = [(''a'', InitMsg 0 5 ''A''), (''b'', InitMsg 1 5 ''A'')]\<rparr>"

text \<open>Between two server states nothing was admitted: no game object was created, no
  room id entered the registry, no room gained a player, and no reply was sent.\<close>

definition noAdmission :: "server \<Rightarrow> server \<Rightarrow> bool" where
  "noAdmission S S' \<longleftrightarrow>
     length (heap S') = length (heap S)
     \<and> fst ` set (games S') \<subseteq> fst ` set (games S)
     \<and> (\<forall>r < length (heap S). set (players (heap S' ! r)) \<subseteq> set (players (heap S ! r)))
     \<and> sent S' = sent S"

text \<open>The invariant the operations keep: the one above, and a players map that is
  one-to-one (no connection twice, no edge twice).\<close>

definition roomInvStrong :: "game \<Rightarrow> bool" where
  "roomInvStrong g \<longleftrightarrow>
     roomInv g \<and> distinct (map fst (players g)) \<and> distinct (map snd (players g))"

text \<open>A new room, started, which connection a then joins once, and twice.\<close>

definition freshRoom :: game where
  "freshRoom = start exampleEnv (newServerGame exampleEnv ''r'')"

definition joinedOnce :: game where
  "joinedOnce = snd (addPlayer exampleEnv ''a'' freshRoom)"

definition joinedTwice :: game where
  "joinedTwice = snd (addPlayer exampleEnv ''a'' joinedOnce)"

section \<open>Runs of a room\<close>


text \<open>The environment when the clock reads \<open>t\<close>.\<close>

definition atTime :: "env \<Rightarrow> real \<Rightarrow> env" where
  "atTime E t = E\<lparr>now := t\<rparr>"



text \<open>
  Modelled from the spec: BaseGame.update is missing and is the parameter \<open>superUpdate\<close>.
  The spec gives the simulation step the job of moving ball, polygon and paddles;
  \<open>lastTime\<close> is a field of ServerGame, and the one writer that \<open>update\<close> can reach,
  \<open>resetGame\<close> through \<open>onCelebrationEnd\<close>, stores the clock reading that \<open>loop\<close> has
  just stored. So the base step leaves \<open>lastTime\<close> as it is, whether it returns or throws.
\<close>

definition baseKeepsLastTime :: "env \<Rightarrow> bool" where
  "baseKeepsLastTime E \<longleftrightarrow>
     (\<forall>dt g. lastTime (case superUpdate E dt g of Inl g' \<Rightarrow> g' | Inr g' \<Rightarrow> g') = lastTime g)"

section \<open>The ready gate during the celebration\<close>

lemma checkAllReady_celebrating:
  "celebrationTimer g > 0 \<Longrightarrow> checkAllReady E g = g"
  by (simp add: checkAllReady_def)

lemma toggleReady_celebrating:
  assumes "celebrationTimer g > 0"
  shows "gameState (toggleReady E socketId isReady g) = gameState g"
    and "celebrationTimer (toggleReady E socketId isReady g) = celebrationTimer g"
  using assms
  by (simp_all add: toggleReady_def broadcastState_def checkAllReady_def Let_def
        split: option.splits)

text \<open>
  C1. In phase SCORING with a strictly positive celebration timer, no sequence of
  toggleReady calls, by whatever connections and with whatever ready values, leaves
  SCORING: after the whole sequence the phase is still SCORING (so it is not COUNTDOWN)
  and the timer is untouched. Hence a run of ready toggles that starts in SCORING and
  ends in COUNTDOWN started with the timer at zero (not positive).
\<close>

theorem C1_no_restart_while_celebrating:
  "gameState g = SCORING \<Longrightarrow> celebrationTimer g > 0 \<Longrightarrow>
     gameState (toggleReadyAll E calls g) = SCORING
     \<and> celebrationTimer (toggleReadyAll E calls g) = celebrationTimer g"
proof (induction calls arbitrary: g)
  case Nil
  then show ?case by simp
next
  case (Cons c calls)
  obtain socketId isReady where c: "c = (socketId, isReady)" by (cases c)
  let ?g = "toggleReady E socketId isReady g"
  from Cons.prems have "gameState ?g = SCORING" "celebrationTimer ?g = celebrationTimer g"
    by (simp_all add: toggleReady_celebrating)
  with Cons.prems Cons.IH [of ?g] show ?case by (simp add: c)
qed

theorem C1_witness:
  "gameState celebrating = SCORING \<and> celebrationTimer celebrating > 0
   \<and> gameState (toggleReadyAll exampleEnv [(''a'', True), (''b'', True)] celebrating) = SCORING
   \<and> celebrationTimer (toggleReadyAll exampleEnv [(''a'', True), (''b'', True)] celebrating)
       = celebrationTimer celebrating"
  using C1_no_restart_while_celebrating [of celebrating exampleEnv "[(''a'', True), (''b'', True)]"]
  by (simp add: celebrating_def twoPlayers_def blankGame_def)

section \<open>Restart when everybody is ready\<close>

lemma resetGame_fields:
  assumes "\<not> restarting g"
  shows "gameState (resetGame E g) = COUNTDOWN"
    and "readyEdges (resetGame E g) = []"
    and "gameBall (resetGame E g) = startBall E"
    and "paddles (resetGame E g) = map (\<lambda>p. p\<lparr>position := 0.5, moveDirection := 0\<rparr>) (paddles g)"
    and "players (resetGame E g) = players g"
    and "\<not> restarting (resetGame E g)"
    and "lastTime (resetGame E g) = now E"
  using assms
  by (simp_all add: resetGame_def Let_def setGameState_def resetState_def broadcastState_def)

text \<open>
  C2. A room in phase SCORING with at least one connected player, whose celebration timer
  is zero and whose occupied edges (the values of the players map) are all in the
  ready-edge set: the evaluation of the all-ready condition (\<open>checkAllReady\<close>) moves the
  phase to COUNTDOWN, empties the ready-edge set, puts the ball back (through the base
  class's reset) and puts every paddle at position 0.5 with move direction 0, keeping the
  paddles' edges and the players. The room is not inside a restart: \<open>restarting\<close> is only
  set while \<open>resetGame\<close> runs, and \<open>resetGame\<close> clears it before it returns.
\<close>

theorem C2_all_ready_restarts:
  assumes "gameState g = SCORING" and "players g \<noteq> []" and "celebrationTimer g = 0"
    and "\<forall>e \<in> set (map snd (players g)). e \<in> set (readyEdges g)"
    and "\<not> restarting g"
  shows "gameState (checkAllReady E g) = COUNTDOWN
     \<and> readyEdges (checkAllReady E g) = []
     \<and> gameBall (checkAllReady E g) = startBall E
     \<and> (\<forall>p \<in> set (paddles (checkAllReady E g)). position p = 0.5 \<and> moveDirection p = 0)
     \<and> map edgeIndex (paddles (checkAllReady E g)) = map edgeIndex (paddles g)
     \<and> players (checkAllReady E g) = players g"
proof -
  from assms(4) have "list_all (\<lambda>idx. idx \<in> set (readyEdges g)) (map snd (players g))"
    by (simp add: list_all_iff)
  with assms have "checkAllReady E g = resetGame E g"
    by (simp add: checkAllReady_def)
  with assms(5) show ?thesis
    by (auto simp: resetGame_fields)
qed

theorem C2_witness:
  "gameState allReady = SCORING \<and> players allReady \<noteq> [] \<and> celebrationTimer allReady = 0
   \<and> list_all (\<lambda>e. e \<in> set (readyEdges allReady)) (map snd (players allReady))
   \<and> \<not> restarting allReady
   \<and> gameState (checkAllReady exampleEnv allReady) = COUNTDOWN
   \<and> readyEdges (checkAllReady exampleEnv allReady) = []"
  using C2_all_ready_restarts [of allReady exampleEnv]
  by (simp add: allReady_def twoPlayers_def blankGame_def)

section \<open>Ready toggles during the celebration\<close>

text \<open>
  C3, as stated, fails: in the celebrating room (phase SCORING, timer 2.5) connection a
  sits on edge 0 and the ready-edge set is empty; after \<open>toggleReady(a, true)\<close> the
  ready-edge set holds edge 0.
\<close>

theorem C3_counterexample:
  "gameState celebrating = SCORING \<and> celebrationTimer celebrating > 0
   \<and> map_of (players celebrating) ''a'' = Some 0
   \<and> readyEdges celebrating = []
   \<and> readyEdges (toggleReady exampleEnv ''a'' True celebrating) = [0]"
  by (simp add: celebrating_def twoPlayers_def blankGame_def toggleReady_def readyAdd_def
        broadcastState_def checkAllReady_def)

text \<open>
  C3, amended. In phase SCORING with a strictly positive celebration timer, a toggleReady
  call from a connected player is recorded but triggers nothing: the player's edge is
  added to the ready-edge set (ready true) or removed from it (ready false), one
  gameState message with the new ready edges is emitted, and every other field of the
  room (phase, timer, players, paddles, ball) is as before.
\<close>

theorem C3_toggle_recorded:
  assumes "gameState g = SCORING" and "celebrationTimer g > 0"
    and "map_of (players g) socketId = Some e"
  shows "set (readyEdges (toggleReady E socketId isReady g))
           = (if isReady then insert e (set (readyEdges g)) else set (readyEdges g) - {e})
     \<and> toggleReady E socketId isReady g
         = broadcastState (g\<lparr>readyEdges := readyEdges (toggleReady E socketId isReady g)\<rparr>)"
  using assms
  by (auto simp: toggleReady_def readyAdd_def broadcastState_def checkAllReady_def Let_def)

theorem C3_toggle_recorded_witness:
  "gameState celebrating = SCORING \<and> celebrationTimer celebrating > 0
   \<and> map_of (players celebrating) ''b'' = Some 1
   \<and> set (readyEdges (toggleReady exampleEnv ''b'' True celebrating)) = {1}"
  using C3_toggle_recorded [of celebrating "''b''" 1 exampleEnv True]
  by (simp add: celebrating_def twoPlayers_def blankGame_def)

section \<open>Paddle input\<close>

lemma setFirstDirection_distinct:
  "distinct (map edgeIndex ps) \<Longrightarrow>
     setFirstDirection e d ps = map (\<lambda>p. if edgeIndex p = e then p\<lparr>moveDirection := d\<rparr> else p) ps"
proof (induction ps)
  case Nil
  then show ?case by simp
next
  case (Cons p ps)
  show ?case
  proof (cases "edgeIndex p = e")
    case True
    with Cons.prems have "\<forall>q \<in> set ps. edgeIndex q \<noteq> e" by (auto simp: image_iff)
    then have "map (\<lambda>p. if edgeIndex p = e then p\<lparr>moveDirection := d\<rparr> else p) ps = ps"
      by (induction ps) auto
    with True show ?thesis by simp
  next
    case False
    with Cons show ?thesis by simp
  qed
qed

text \<open>
  C4, as stated, fails: the room with two players is in phase COUNTDOWN, not PLAYING, and
  both paddles rest; after \<open>handleInput(a, 1)\<close> the paddle of connection a (edge 0) has
  move direction 1.
\<close>

theorem C4_counterexample:
  "gameState twoPlayers = COUNTDOWN
   \<and> map moveDirection (paddles twoPlayers) = [0, 0]
   \<and> map moveDirection (paddles (handleInput ''a'' 1 twoPlayers)) = [1, 0]"
  by (simp add: twoPlayers_def blankGame_def handleInput_def)

text \<open>
  C4, amended. Paddle input is ignored only in phase SCORING or from a connection id that
  is not in the players map: then no field of the room changes. In every other phase
  (COUNTDOWN, PLAYING, TERMINATED) an input from a known connection sets the move
  direction of the paddle on that connection's edge and leaves every other paddle, and
  every other field, as it was. (Paddle edges are pairwise distinct in every room the
  operations build.)
\<close>

theorem C4_input_gate:
  assumes "distinct (map edgeIndex (paddles g))"
  shows "handleInput socketId dir g
           = g\<lparr>paddles := map (\<lambda>p. if gameState g \<noteq> SCORING
                                      \<and> map_of (players g) socketId = Some (edgeIndex p)
                                   then p\<lparr>moveDirection := dir\<rparr> else p) (paddles g)\<rparr>"
proof (cases "gameState g = SCORING \<or> map_of (players g) socketId = None")
  case True
  then have "map (\<lambda>p. if gameState g \<noteq> SCORING
                                      \<and> map_of (players g) socketId = Some (edgeIndex p)
                                   then p\<lparr>moveDirection := dir\<rparr> else p) (paddles g) = paddles g"
    by (intro map_idI) auto
  with True show ?thesis by (auto simp: handleInput_def)
next
  case False
  then obtain e where e: "map_of (players g) socketId = Some e" by auto
  with False assms show ?thesis
    by (simp add: handleInput_def setFirstDirection_distinct)
qed

theorem C4_witness:
  "distinct (map edgeIndex (paddles twoPlayers))
   \<and> map moveDirection (paddles (handleInput ''b'' (-1) twoPlayers)) = [0, -1]
   \<and> handleInput ''b'' (-1) (twoPlayers\<lparr>gameState := SCORING\<rparr>) = twoPlayers\<lparr>gameState := SCORING\<rparr>"
  using C4_input_gate [of twoPlayers "''b''" "-1"]
    C4_input_gate [of "twoPlayers\<lparr>gameState := SCORING\<rparr>" "''b''" "-1"]
  by (simp add: twoPlayers_def blankGame_def)

section \<open>Joining a room\<close>

lemma firstFreeEdge_props:
  "e \<le> firstFreeEdge occ n e
   \<and> (\<forall>k. e \<le> k \<and> k < firstFreeEdge occ n e \<longrightarrow> k \<in> occ \<and> k < n)
   \<and> (firstFreeEdge occ n e \<in> occ \<longrightarrow> n \<le> firstFreeEdge occ n e)"
proof (induction occ n e rule: firstFreeEdge.induct)
  case (1 occ n e)
  show ?case
  proof (cases "e \<in> occ \<and> e < n")
    case True
    let ?r = "firstFreeEdge occ n (e + 1)"
    have eq: "firstFreeEdge occ n e = ?r"
      using True by (subst firstFreeEdge.simps) simp
    from "1.IH" [OF True]
    have le: "e + 1 \<le> ?r"
      and between: "\<And>k. e + 1 \<le> k \<Longrightarrow> k < ?r \<Longrightarrow> k \<in> occ \<and> k < n"
      and stop: "?r \<in> occ \<longrightarrow> n \<le> ?r"
      by blast+
    have "\<And>k. e \<le> k \<Longrightarrow> k < ?r \<Longrightarrow> k \<in> occ \<and> k < n"
    proof -
      fix k assume k: "e \<le> k" "k < ?r"
      show "k \<in> occ \<and> k < n"
      proof (cases "k = e")
        case True
        with \<open>e \<in> occ \<and> e < n\<close> show ?thesis by simp
      next
        case False
        with k have "e + 1 \<le> k" by linarith
        with k between show ?thesis by blast
      qed
    qed
    with le stop show ?thesis unfolding eq by (simp; blast)
  next
    case False
    then have "firstFreeEdge occ n e = e"
      by (subst firstFreeEdge.simps) auto
    with False show ?thesis by auto
  qed
qed

lemma firstFreeEdge_below:
  assumes "finite occ" and "int (card occ) < n"
  shows "firstFreeEdge occ n 0 < n"
proof (rule ccontr)
  assume "\<not> firstFreeEdge occ n 0 < n"
  then have "\<forall>k. 0 \<le> k \<and> k < n \<longrightarrow> k \<in> occ"
    using firstFreeEdge_props [of 0 occ n] by force
  then have "{0..<n} \<subseteq> occ" by auto
  with assms(1) have "card {0..<n} \<le> card occ" by (rule_tac card_mono)
  with assms(2) show False by simp
qed

lemma addPlayer_full:
  "sides g \<le> int (length (paddles g)) \<Longrightarrow> addPlayer E socketId g = (-1, g)"
  by (simp add: addPlayer_def)

lemma addPlayer_free:
  assumes "int (length (paddles g)) < sides g"
  shows "\<exists>e. 0 \<le> e \<and> e < sides g \<and> e \<notin> occupied g
           \<and> (\<forall>k. 0 \<le> k \<and> k < e \<longrightarrow> k \<in> occupied g)
           \<and> addPlayer E socketId g
               = (e, broadcastState (g\<lparr>paddles := paddles g @ [newPaddle E e],
                                       players := AList.update socketId e (players g)\<rparr>))"
proof -
  let ?e = "firstFreeEdge (occupied g) (sides g) 0"
  have "card (occupied g) \<le> length (paddles g)"
    unfolding occupied_def by (metis card_length length_map)
  with assms have "int (card (occupied g)) < sides g" by linarith
  then have lt: "?e < sides g"
    by (intro firstFreeEdge_below) (simp_all add: occupied_def)
  from firstFreeEdge_props [of 0 "occupied g" "sides g"] lt
  have "0 \<le> ?e" "?e \<notin> occupied g" "\<forall>k. 0 \<le> k \<and> k < ?e \<longrightarrow> k \<in> occupied g"
    by auto
  moreover from assms lt
  have "addPlayer E socketId g
               = (?e, broadcastState (g\<lparr>paddles := paddles g @ [newPaddle E ?e],
                                       players := AList.update socketId ?e (players g)\<rparr>))"
    by (simp add: addPlayer_def occupied_def Let_def)
  ultimately show ?thesis using lt by blast
qed

text \<open>
  C5. In a room whose paddle edges are pairwise distinct (every room the operations
  build), with fewer occupied edges than the polygon has sides, addPlayer returns the
  lowest edge index from 0 on that no paddle occupies, below the side count, maps the
  joining connection to it and occupies it. When the number of occupied edges equals
  the side count, addPlayer returns -1 and the room (players, paddles, ready edges and
  everything else) is unchanged.
\<close>

theorem C5_addPlayer_lowest_free_edge:
  assumes "distinct (map edgeIndex (paddles g))"
  shows "(int (card (occupied g)) < sides g \<longrightarrow>
            0 \<le> fst (addPlayer E socketId g) \<and> fst (addPlayer E socketId g) < sides g
            \<and> fst (addPlayer E socketId g) \<notin> occupied g
            \<and> (\<forall>k. 0 \<le> k \<and> k < fst (addPlayer E socketId g) \<longrightarrow> k \<in> occupied g)
            \<and> map_of (players (snd (addPlayer E socketId g))) socketId
                = Some (fst (addPlayer E socketId g))
            \<and> occupied (snd (addPlayer E socketId g))
                = insert (fst (addPlayer E socketId g)) (occupied g))
       \<and> (int (card (occupied g)) = sides g \<longrightarrow> addPlayer E socketId g = (-1, g))"
proof (intro conjI impI)
  assume full: "int (card (occupied g)) = sides g"
  have "card (occupied g) \<le> length (paddles g)"
    unfolding occupied_def by (metis card_length length_map)
  with full show "addPlayer E socketId g = (-1, g)"
    by (intro addPlayer_full) linarith
next
  assume free: "int (card (occupied g)) < sides g"
  from assms have "card (occupied g) = length (paddles g)"
    unfolding occupied_def by (metis distinct_card length_map)
  with free have "int (length (paddles g)) < sides g" by simp
  from addPlayer_free [OF this, of E socketId]
  obtain e where e: "0 \<le> e" "e < sides g" "e \<notin> occupied g"
      "\<forall>k. 0 \<le> k \<and> k < e \<longrightarrow> k \<in> occupied g"
      "addPlayer E socketId g
         = (e, broadcastState (g\<lparr>paddles := paddles g @ [newPaddle E e],
                                 players := AList.update socketId e (players g)\<rparr>))"
    by blast
  show "0 \<le> fst (addPlayer E socketId g)" using e by simp
  show "fst (addPlayer E socketId g) < sides g" using e by simp
  show "fst (addPlayer E socketId g) \<notin> occupied g" using e by simp
  show "\<forall>k. 0 \<le> k \<and> k < fst (addPlayer E socketId g) \<longrightarrow> k \<in> occupied g" using e by simp
  show "map_of (players (snd (addPlayer E socketId g))) socketId
                = Some (fst (addPlayer E socketId g))"
    using e(5) by (simp add: broadcastState_def update_conv')
  show "occupied (snd (addPlayer E socketId g))
                = insert (fst (addPlayer E socketId g)) (occupied g)"
    using e(5) by (simp add: broadcastState_def occupied_def newPaddle_def)
qed


theorem C5_witness:
  "distinct (map edgeIndex (paddles twoPlayers))
   \<and> int (card (occupied twoPlayers)) < sides twoPlayers
   \<and> fst (addPlayer exampleEnv ''c'' twoPlayers) = 2
   \<and> distinct (map edgeIndex (paddles fullRoom))
   \<and> int (card (occupied fullRoom)) = sides fullRoom
   \<and> addPlayer exampleEnv ''c'' fullRoom = (-1, fullRoom)"
proof -
  have d: "distinct (map edgeIndex (paddles twoPlayers))"
      "distinct (map edgeIndex (paddles fullRoom))"
    by (simp_all add: fullRoom_def twoPlayers_def blankGame_def)
  have c: "int (card (occupied twoPlayers)) < sides twoPlayers"
      "int (card (occupied fullRoom)) = sides fullRoom"
    by (simp_all add: fullRoom_def twoPlayers_def blankGame_def occupied_def)
  have o: "occupied twoPlayers = {0, 1}"
    by (simp add: twoPlayers_def blankGame_def occupied_def)
  from C5_addPlayer_lowest_free_edge [OF d(1), of exampleEnv "''c''"] c(1)
  have "0 \<le> fst (addPlayer exampleEnv ''c'' twoPlayers)"
    "fst (addPlayer exampleEnv ''c'' twoPlayers) \<notin> {0, 1}"
    "\<forall>k. 0 \<le> k \<and> k < fst (addPlayer exampleEnv ''c'' twoPlayers) \<longrightarrow> k \<in> {0, 1}"
    unfolding o by blast+
  then have "0 \<le> fst (addPlayer exampleEnv ''c'' twoPlayers)"
    "fst (addPlayer exampleEnv ''c'' twoPlayers) \<noteq> 0"
    "fst (addPlayer exampleEnv ''c'' twoPlayers) \<noteq> 1"
    "\<not> 2 < fst (addPlayer exampleEnv ''c'' twoPlayers)"
    by (auto dest: spec [of _ 2])
  then have "fst (addPlayer exampleEnv ''c'' twoPlayers) = 2"
    by linarith
  moreover from C5_addPlayer_lowest_free_edge [OF d(2), of exampleEnv "''c''"] c(2)
  have "addPlayer exampleEnv ''c'' fullRoom = (-1, fullRoom)" by blast
  ultimately show ?thesis using d c by blast
qed

section \<open>Disconnect during a match\<close>

lemma checkAllReady_other_phase:
  "gameState g \<noteq> SCORING \<Longrightarrow> checkAllReady E g = g"
  by (simp add: checkAllReady_def)

lemma broadcastState_fields [simp]:
  "gameState (broadcastState g) = gameState g"
  "running (broadcastState g) = running g"
  "interval (broadcastState g) = interval g"
  "players (broadcastState g) = players g"
  "paddles (broadcastState g) = paddles g"
  "readyEdges (broadcastState g) = readyEdges g"
  "celebrationTimer (broadcastState g) = celebrationTimer g"
  "restarting (broadcastState g) = restarting g"
  "score (broadcastState g) = score g"
  "timeElapsed (broadcastState g) = timeElapsed g"
  "outbox (broadcastState g) = outbox g @ [GameStateMsg (snapshotOf g)]"
  by (simp_all add: broadcastState_def)

lemma terminateGame_fields [simp]:
  "gameState (terminateGame reason g) = TERMINATED"
  "running (terminateGame reason g) = False"
  "interval (terminateGame reason g) = False"
  "players (terminateGame reason g) = players g"
  "paddles (terminateGame reason g) = paddles g"
  "readyEdges (terminateGame reason g) = readyEdges g"
  "restarting (terminateGame reason g) = restarting g"
  "outbox (terminateGame reason g)
     = outbox g @ [GameTerminatedMsg reason (score g) \<lfloor>timeElapsed g\<rfloor>]"
  by (simp_all add: terminateGame_def setGameState_def Let_def)

text \<open>The room after the three deletions of \<open>removePlayer\<close>.\<close>

lemma removePlayer_unfold:
  assumes "map_of (players g) socketId = Some e"
  shows "removePlayer E socketId g =
     (let g4 = checkAllReady E (broadcastState
                 (g\<lparr>players := AList.delete socketId (players g),
                    readyEdges := removeAll e (readyEdges g),
                    paddles := filter (\<lambda>p. edgeIndex p \<noteq> e) (paddles g)\<rparr>))
      in if running g4 \<and> gameState g4 = PLAYING
         then terminateGame ''A player left the game'' g4 else g4)"
  using assms by (simp add: removePlayer_def)

text \<open>
  C6, as stated, fails: in the running room with connections a and b in phase PLAYING,
  removing a terminates the match (one gameState broadcast, then gameTerminated); a
  later \<open>playerReady\<close> of b goes through \<open>toggleReady\<close>, which broadcasts another
  gameState for the terminated room.
\<close>

theorem C6_counterexample:
  "gameState playing = PLAYING
   \<and> gameState (removePlayer exampleEnv ''a'' playing) = TERMINATED
   \<and> map isGameState (outbox (removePlayer exampleEnv ''a'' playing)) = [True, False]
   \<and> map isGameState
        (outbox (toggleReady exampleEnv ''b'' True (removePlayer exampleEnv ''a'' playing)))
       = [True, False, True]"
  by (simp add: playing_def twoPlayers_def blankGame_def removePlayer_def toggleReady_def
        checkAllReady_def broadcastState_def terminateGame_def setGameState_def
        AList.delete_eq readyAdd_def Let_def)

text \<open>
  C6, amended. If a player is removed while the phase is PLAYING and the room is running
  (its loop has not been stopped), the room moves to TERMINATED, emits one gameState and
  then exactly one gameTerminated message (the reason, the score as last score, the
  floor of the elapsed time as final time), and stops its loop: \<open>running\<close> is false and
  the timer is cleared, so that a later tick does nothing and broadcasts nothing.
  Broadcasts made by later join, leave and ready calls are not excluded.
\<close>

theorem C6_disconnect_terminates:
  assumes "running g" and "gameState g = PLAYING" and "map_of (players g) socketId = Some e"
  shows "gameState (removePlayer E socketId g) = TERMINATED
     \<and> \<not> running (removePlayer E socketId g)
     \<and> \<not> interval (removePlayer E socketId g)
     \<and> outbox (removePlayer E socketId g)
         = outbox g
           @ [GameStateMsg (snapshotOf (g\<lparr>players := AList.delete socketId (players g),
                                           readyEdges := removeAll e (readyEdges g),
                                           paddles := filter (\<lambda>p. edgeIndex p \<noteq> e) (paddles g)\<rparr>)),
              GameTerminatedMsg ''A player left the game'' (score g) \<lfloor>timeElapsed g\<rfloor>]
     \<and> tick E' (removePlayer E socketId g) = removePlayer E socketId g"
proof -
  let ?g3 = "g\<lparr>players := AList.delete socketId (players g),
                readyEdges := removeAll e (readyEdges g),
                paddles := filter (\<lambda>p. edgeIndex p \<noteq> e) (paddles g)\<rparr>"
  let ?b = "broadcastState ?g3"
  have b: "gameState ?b = PLAYING" "running ?b" "score ?b = score g"
      "timeElapsed ?b = timeElapsed g" "outbox ?b = outbox g @ [GameStateMsg (snapshotOf ?g3)]"
    using assms by simp_all
  then have "checkAllReady E ?b = ?b"
    by (simp add: checkAllReady_other_phase)
  with b have r: "removePlayer E socketId g = terminateGame ''A player left the game'' ?b"
    by (simp add: removePlayer_unfold [OF assms(3)] Let_def)
  show ?thesis
    unfolding r using b by (simp add: tick_def)
qed

theorem C6_witness:
  "running playing \<and> gameState playing = PLAYING \<and> map_of (players playing) ''a'' = Some 0
   \<and> gameState (removePlayer exampleEnv ''a'' playing) = TERMINATED
   \<and> tick exampleEnv (removePlayer exampleEnv ''a'' playing) = removePlayer exampleEnv ''a'' playing"
  using C6_disconnect_terminates [of playing "''a''" 0 exampleEnv exampleEnv]
  by (simp add: playing_def twoPlayers_def blankGame_def)

section \<open>Destroying the empty room\<close>

lemma resetGame_frame [simp]:
  "players (resetGame E g) = players g"
  "running (resetGame E g) = running g"
  "interval (resetGame E g) = interval g"
  "restarting (resetGame E g) = restarting g"
  "map edgeIndex (paddles (resetGame E g)) = map edgeIndex (paddles g)"
  "set (readyEdges (resetGame E g)) \<subseteq> set (readyEdges g)"
  by (simp_all add: resetGame_def Let_def setGameState_def resetState_def broadcastState_def
        comp_def)

lemma checkAllReady_frame [simp]:
  "players (checkAllReady E g) = players g"
  "running (checkAllReady E g) = running g"
  "interval (checkAllReady E g) = interval g"
  "restarting (checkAllReady E g) = restarting g"
  "map edgeIndex (paddles (checkAllReady E g)) = map edgeIndex (paddles g)"
  "set (readyEdges (checkAllReady E g)) \<subseteq> set (readyEdges g)"
  by (simp_all add: checkAllReady_def)

lemma removePlayer_players:
  "players (removePlayer E socketId g) = AList.delete socketId (players g)"
proof (cases "map_of (players g) socketId")
  case None
  then have "socketId \<notin> fst ` set (players g)"
    by (simp add: map_of_eq_None_iff)
  then have "AList.delete socketId (players g) = players g"
    by (simp add: delete_id)
  with None show ?thesis by (simp add: removePlayer_def)
next
  case (Some e)
  show ?thesis
    by (simp add: removePlayer_unfold [OF Some] Let_def)
qed

lemma stop_fields [simp]:
  "running (stop g) = False"
  "interval (stop g) = False"
  "players (stop g) = players g"
  by (simp_all add: stop_def)

text \<open>
  C7. When the disconnect listener of a connection runs on a room whose only player is
  that connection, in whatever phase the room is, the room is destroyed at once: its
  player map is empty, \<open>running\<close> is false and the timer is cleared, the room id is no
  longer in the registry, and a tick of that room does nothing any more.
\<close>

theorem C7_last_player_destroys_room:
  assumes "ref < length (heap S)"
    and "set (map fst (players (heap S ! ref))) = {socketId}"
    and "S' = onDisconnect E socketId (ref, rid) S"
  shows "players (heap S' ! ref) = []
     \<and> \<not> running (heap S' ! ref) \<and> \<not> interval (heap S' ! ref)
     \<and> map_of (games S') rid = None
     \<and> tick E' (heap S' ! ref) = heap S' ! ref"
proof -
  let ?game = "removePlayer E socketId (heap S ! ref)"
  from assms(2) have "\<forall>p \<in> set (players (heap S ! ref)). fst p = socketId" by auto
  then have "filter (\<lambda>p. fst p \<noteq> socketId) (players (heap S ! ref)) = []"
    by (simp add: filter_empty_conv)
  then have "AList.delete socketId (players (heap S ! ref)) = []"
    by (simp add: AList.delete_eq case_prod_unfold eq_commute)
  then have empty: "players ?game = []"
    by (simp add: removePlayer_players)
  then have S': "S' = S\<lparr>heap := (heap S)[ref := stop ?game],
                        games := AList.delete rid (games S)\<rparr>"
    by (simp add: assms(3) onDisconnect_def)
  from assms(1) have at: "heap S' ! ref = stop ?game"
    by (simp add: S')
  have "map_of (games S') rid = None"
    by (simp add: S' delete_conv')
  with at empty show ?thesis
    by (simp add: tick_def)
qed

theorem C7_witness:
  "0 < length (heap oneRoomServer)
   \<and> set (map fst (players (heap oneRoomServer ! 0))) = {''a''}
   \<and> games (onDisconnect exampleEnv ''a'' (0, ''r'') oneRoomServer) = []
   \<and> \<not> interval (heap (onDisconnect exampleEnv ''a'' (0, ''r'') oneRoomServer) ! 0)"
proof -
  have h: "0 < length (heap oneRoomServer)"
    "set (map fst (players (heap oneRoomServer ! 0))) = {''a''}"
    by (simp_all add: oneRoomServer_def lastPlayer_def)
  have g: "games (onDisconnect exampleEnv ''a'' (0, ''r'') oneRoomServer) = []"
    by (simp add: onDisconnect_def removePlayer_players oneRoomServer_def lastPlayer_def
          AList.delete_eq)
  from C7_last_player_destroys_room [OF h refl, of exampleEnv "''r''"] h g
  show ?thesis by simp
qed

section \<open>Requests for another instance\<close>

text \<open>
  C8, as stated, fails: the server off Fly.io runs as instance \<open>local\<close>; a joinRoom
  request for room1 tagged for instance B is different from the running instance's id,
  and yet the room is created and the socket becomes its player on edge 0.
\<close>

theorem C8_counterexample:
  "Some ''B'' \<noteq> Some (instanceId localServer)
   \<and> games (joinRoom exampleEnv ''s1'' (JoinRequest ''room1'' (Some ''B'')) localServer)
       = [(''room1'', 0)]
   \<and> map players (heap (joinRoom exampleEnv ''s1'' (JoinRequest ''room1'' (Some ''B'')) localServer))
       = [[(''s1'', 0)]]"
  by (simp add: localServer_def joinRoom_def truthy_def admit_def addPlayer_def
        firstFreeEdge.simps start_def newServerGame_def exampleEnv_def blankGame_def
        broadcastState_def Let_def)

lemma noAdmission_refl: "noAdmission S S"
  by (simp add: noAdmission_def)

lemma noAdmission_trans:
  assumes "noAdmission S S'" and "noAdmission S' S''"
  shows "noAdmission S S''"
proof -
  from assms have len: "length (heap S') = length (heap S)" "length (heap S'') = length (heap S)"
    and sent: "sent S'' = sent S"
    by (simp_all add: noAdmission_def)
  from assms have "fst ` set (games S'') \<subseteq> fst ` set (games S')"
    "fst ` set (games S') \<subseteq> fst ` set (games S)"
    by (simp_all add: noAdmission_def)
  then have keys: "fst ` set (games S'') \<subseteq> fst ` set (games S)"
    by (rule subset_trans)
  have "set (players (heap S'' ! r)) \<subseteq> set (players (heap S ! r))" if "r < length (heap S)" for r
  proof -
    from that assms(1) have "set (players (heap S' ! r)) \<subseteq> set (players (heap S ! r))"
      by (simp add: noAdmission_def)
    moreover from that assms(2) len have "set (players (heap S'' ! r)) \<subseteq> set (players (heap S' ! r))"
      by (simp add: noAdmission_def)
    ultimately show ?thesis by (rule subset_trans [rotated])
  qed
  with len keys sent show ?thesis by (simp add: noAdmission_def)
qed

lemma set_delete_subset: "set (AList.delete k al) \<subseteq> set al"
  by (auto simp: AList.delete_eq)

lemma players_list_update:
  assumes "set (players g) \<subseteq> set (players (gs ! ref))" and "r < length gs"
  shows "set (players (gs[ref := g] ! r)) \<subseteq> set (players (gs ! r))"
proof (cases "r = ref")
  case True
  with assms show ?thesis by simp
next
  case False
  then show ?thesis by simp
qed


lemma onDisconnect_noAdmission: "noAdmission S (onDisconnect E socketId h S)"
proof -
  obtain ref rid where h: "h = (ref, rid)" by (cases h)
  let ?game = "removePlayer E socketId (heap S ! ref)"
  have sub: "set (players ?game) \<subseteq> set (players (heap S ! ref))"
    by (simp add: removePlayer_players set_delete_subset)
  then have sub': "set (players (stop ?game)) \<subseteq> set (players (heap S ! ref))"
    by simp
  have keys: "fst ` set (AList.delete rid (games S)) \<subseteq> fst ` set (games S)"
    using set_delete_subset [of rid "games S"] by (rule image_mono)
  show ?thesis
  proof (cases "players ?game = []")
    case True
    then have "onDisconnect E socketId h S
        = S\<lparr>heap := (heap S)[ref := stop ?game], games := AList.delete rid (games S)\<rparr>"
      by (simp add: h onDisconnect_def)
    with keys players_list_update [OF sub'] show ?thesis
      by (simp add: noAdmission_def)
  next
    case False
    then have "onDisconnect E socketId h S = S\<lparr>heap := (heap S)[ref := ?game]\<rparr>"
      by (simp add: h onDisconnect_def)
    with players_list_update [OF sub] show ?thesis
      by (simp add: noAdmission_def)
  qed
qed

lemma fold_onDisconnect_noAdmission:
  "noAdmission S (fold (onDisconnect E socketId) hs S)"
proof (induction hs arbitrary: S)
  case Nil
  show ?case by (simp add: noAdmission_refl)
next
  case (Cons h hs)
  from onDisconnect_noAdmission [of S E socketId h] Cons [of "onDisconnect E socketId h S"]
  have "noAdmission S (fold (onDisconnect E socketId) hs (onDisconnect E socketId h S))"
    by (rule noAdmission_trans)
  then show ?case by simp
qed

lemma disconnectSocket_noAdmission: "noAdmission S (disconnectSocket E socketId S)"
proof -
  let ?S1 = "fold (onDisconnect E socketId)
               (map snd (filter (\<lambda>l. fst l = socketId) (disconnectListeners S))) S"
  have "noAdmission S ?S1" by (rule fold_onDisconnect_noAdmission)
  moreover have "noAdmission ?S1 (disconnectSocket E socketId S)"
    by (simp add: disconnectSocket_def Let_def noAdmission_def)
  ultimately show ?thesis by (rule noAdmission_trans)
qed

lemma disconnectSocket_listeners:
  "map_of (inputListener (disconnectSocket E socketId S)) socketId = None"
  "map_of (readyListener (disconnectSocket E socketId S)) socketId = None"
  "socketId \<notin> fst ` set (disconnectListeners (disconnectSocket E socketId S))"
  by (auto simp: disconnectSocket_def Let_def delete_conv')


text \<open>
  C8, amended. On an instance that runs on Fly.io, a joinRoom request that carries a
  non-empty target instance different from the instance's own id is rejected and never
  reaches the room layer: the socket gets the error reply and is disconnected (its
  listeners are gone), no game object and no registry entry is created, and no room
  gains a player.
\<close>

theorem C8_wrong_instance_rejected:
  assumes "isFlyInstance S" and "i \<noteq> []" and "i \<noteq> instanceId S"
    and "S' = joinRoom E socketId (JoinRequest rid (Some i)) S"
  shows "length (heap S') = length (heap S)
     \<and> fst ` set (games S') \<subseteq> fst ` set (games S)
     \<and> (\<forall>r < length (heap S). set (players (heap S' ! r)) \<subseteq> set (players (heap S ! r)))
     \<and> sent S' = sent S @ [(socketId, ErrorMsg ''Connected to wrong instance'' i (instanceId S))]
     \<and> map_of (inputListener S') socketId = None
     \<and> map_of (readyListener S') socketId = None
     \<and> socketId \<notin> fst ` set (disconnectListeners S')"
proof -
  let ?S1 = "S\<lparr>sent := sent S @ [(socketId, ErrorMsg ''Connected to wrong instance'' i
                                     (instanceId S))]\<rparr>"
  from assms have S': "S' = disconnectSocket E socketId ?S1"
    by (simp add: joinRoom_def truthy_def)
  from disconnectSocket_noAdmission [of ?S1 E socketId]
  have "noAdmission ?S1 S'" by (simp add: S')
  then have "length (heap S') = length (heap S)"
    "fst ` set (games S') \<subseteq> fst ` set (games S)"
    "\<forall>r < length (heap S). set (players (heap S' ! r)) \<subseteq> set (players (heap S ! r))"
    "sent S' = sent S @ [(socketId, ErrorMsg ''Connected to wrong instance'' i (instanceId S))]"
    by (simp_all add: noAdmission_def)
  then show ?thesis
    unfolding S' by (simp add: disconnectSocket_listeners)
qed

theorem C8_witness:
  "isFlyInstance flyServer \<and> ''B'' \<noteq> [] \<and> ''B'' \<noteq> instanceId flyServer
   \<and> length (heap (joinRoom exampleEnv ''c'' (JoinRequest ''r'' (Some ''B'')) flyServer)) = 1
   \<and> sent (joinRoom exampleEnv ''c'' (JoinRequest ''r'' (Some ''B'')) flyServer)
       = sent flyServer @ [(''c'', ErrorMsg ''Connected to wrong instance'' ''B'' ''A'')]"
  using C8_wrong_instance_rejected [of flyServer "''B''" _ exampleEnv "''c''" "''r''", OF _ _ _ refl]
  by (simp add: flyServer_def)

lemma routing_redirects:
  assumes "isFlyInstance S" and "reqUrl req = Some (pathname, Some i)"
    and "startsWith pathname ''/socket.io/''" and "i \<noteq> []" and "i \<noteq> instanceId S"
  shows "handleFlyInstanceRouting S req isUpgrade = (True, Some (i, isUpgrade))"
  using assms by (simp add: handleFlyInstanceRouting_def truthy_def)

lemma allowRequest_rejects:
  assumes "isFlyInstance S" and "i \<noteq> []" and "i \<noteq> instanceId S"
  shows "\<not> allowRequest S (Some i) header"
  using assms by (simp add: allowRequest_def truthy_def)

lemma routing_off_fly:
  "\<not> isFlyInstance S \<Longrightarrow> handleFlyInstanceRouting S req isUpgrade = (False, None)"
  by (simp add: handleFlyInstanceRouting_def)

section \<open>The invariant of a room\<close>

lemma roomInvStrongD:
  assumes "roomInvStrong g"
  shows "distinct (map edgeIndex (paddles g))"
    and "set (map edgeIndex (paddles g)) = set (map snd (players g))"
    and "set (readyEdges g) \<subseteq> set (map edgeIndex (paddles g))"
    and "distinct (map fst (players g))"
    and "distinct (map snd (players g))"
  using assms unfolding roomInvStrong_def roomInv_def by blast+

lemma roomInvStrongI:
  assumes "distinct (map edgeIndex (paddles g))"
    and "set (map edgeIndex (paddles g)) = set (map snd (players g))"
    and "set (readyEdges g) \<subseteq> set (map edgeIndex (paddles g))"
    and "distinct (map fst (players g))"
    and "distinct (map snd (players g))"
  shows "roomInvStrong g"
  using assms unfolding roomInvStrong_def roomInv_def by blast

lemma roomInvStrong_frame:
  assumes "roomInvStrong g"
    and "map edgeIndex (paddles g') = map edgeIndex (paddles g)"
    and "players g' = players g"
    and "set (readyEdges g') \<subseteq> set (readyEdges g)"
  shows "roomInvStrong g'"
proof (rule roomInvStrongI)
  note inv = roomInvStrongD [OF assms(1)]
  show "distinct (map edgeIndex (paddles g'))" using inv(1) by (simp only: assms(2))
  show "set (map edgeIndex (paddles g')) = set (map snd (players g'))"
    using inv(2) by (simp only: assms(2,3))
  show "set (readyEdges g') \<subseteq> set (map edgeIndex (paddles g'))"
    using assms(4) inv(3) unfolding assms(2) by (rule subset_trans)
  show "distinct (map fst (players g'))" using inv(4) by (simp only: assms(3))
  show "distinct (map snd (players g'))" using inv(5) by (simp only: assms(3))
qed

lemma resetGame_roomInvStrong: "roomInvStrong g \<Longrightarrow> roomInvStrong (resetGame E g)"
  by (erule roomInvStrong_frame) simp_all

lemma checkAllReady_roomInvStrong: "roomInvStrong g \<Longrightarrow> roomInvStrong (checkAllReady E g)"
  by (erule roomInvStrong_frame) simp_all

lemma broadcastState_roomInvStrong: "roomInvStrong g \<Longrightarrow> roomInvStrong (broadcastState g)"
  by (erule roomInvStrong_frame) simp_all

lemma terminateGame_roomInvStrong: "roomInvStrong g \<Longrightarrow> roomInvStrong (terminateGame r g)"
  by (erule roomInvStrong_frame) simp_all

lemma toggleReady_roomInvStrong:
  assumes "roomInvStrong g"
  shows "roomInvStrong (toggleReady E socketId isReady g)"
proof (cases "map_of (players g) socketId")
  case None
  with assms show ?thesis by (simp add: toggleReady_def)
next
  case (Some e)
  let ?R = "if isReady then readyAdd e (readyEdges g) else removeAll e (readyEdges g)"
  from Some have "(socketId, e) \<in> set (players g)" by (rule map_of_SomeD)
  then have "e \<in> set (map snd (players g))" by force
  note inv = roomInvStrongD [OF assms]
  with \<open>e \<in> set (map snd (players g))\<close> have "e \<in> set (map edgeIndex (paddles g))"
    by blast
  moreover have "set ?R \<subseteq> insert e (set (readyEdges g))"
    by (auto simp: readyAdd_def)
  ultimately have "set ?R \<subseteq> set (map edgeIndex (paddles g))"
    using inv(3) by blast
  with inv have "roomInvStrong (g\<lparr>readyEdges := ?R\<rparr>)"
    by (intro roomInvStrongI) simp_all
  then have "roomInvStrong (checkAllReady E (broadcastState (g\<lparr>readyEdges := ?R\<rparr>)))"
    by (intro checkAllReady_roomInvStrong broadcastState_roomInvStrong)
  with Some show ?thesis by (simp add: toggleReady_def)
qed

lemma values_delete:
  assumes "distinct (map fst ps)" and "distinct (map snd ps)" and "map_of ps k = Some v"
  shows "set (map snd (AList.delete k ps)) = set (map snd ps) - {v}"
proof -
  have mem: "(k, v) \<in> set ps" using assms(3) by (rule map_of_SomeD)
  have inj: "k' = k" if "(k', v) \<in> set ps" for k'
    using assms(2) mem that by (metis distinct_map inj_onD snd_conv fst_conv)
  have val: "v' = v" if "(k, v') \<in> set ps" for v'
    using assms(1,3) that by (metis map_of_is_SomeI option.inject)
  show ?thesis
  proof (intro set_eqI iffI)
    fix x assume "x \<in> set (map snd (AList.delete k ps))"
    then obtain k' where "(k', x) \<in> set ps" "k' \<noteq> k"
      by (auto simp: AList.delete_eq)
    with inj show "x \<in> set (map snd ps) - {v}" by force
  next
    fix x assume "x \<in> set (map snd ps) - {v}"
    then obtain k' where k': "(k', x) \<in> set ps" and "x \<noteq> v" by auto
    with val have "k' \<noteq> k" by blast
    with k' show "x \<in> set (map snd (AList.delete k ps))"
      by (force simp: AList.delete_eq)
  qed
qed

lemma removePlayer_roomInvStrong:
  assumes "roomInvStrong g"
  shows "roomInvStrong (removePlayer E socketId g)"
proof (cases "map_of (players g) socketId")
  case None
  with assms show ?thesis by (simp add: removePlayer_def)
next
  case (Some e)
  let ?g3 = "g\<lparr>players := AList.delete socketId (players g),
                readyEdges := removeAll e (readyEdges g),
                paddles := filter (\<lambda>p. edgeIndex p \<noteq> e) (paddles g)\<rparr>"
  note inv = roomInvStrongD [OF assms]
  have edges: "set (map edgeIndex (filter (\<lambda>p. edgeIndex p \<noteq> e) (paddles g)))
                 = set (map edgeIndex (paddles g)) - {e}"
    by auto
  have vals: "set (map snd (AList.delete socketId (players g))) = set (map snd (players g)) - {e}"
    using inv(4,5) Some by (rule values_delete)
  have d1: "distinct (map edgeIndex (filter (\<lambda>p. edgeIndex p \<noteq> e) (paddles g)))"
    using inv(1) by (rule distinct_map_filter)
  have d2: "distinct (map fst (AList.delete socketId (players g)))"
    "distinct (map snd (AList.delete socketId (players g)))"
    using inv(4,5) by (simp_all add: AList.delete_eq distinct_map_filter)
  have rdy: "set (removeAll e (readyEdges g)) \<subseteq> set (map edgeIndex (paddles g)) - {e}"
    using inv(3) by auto
  have "roomInvStrong ?g3"
  proof (rule roomInvStrongI)
    show "set (map edgeIndex (paddles ?g3)) = set (map snd (players ?g3))"
      using edges vals inv(2) by simp
    show "set (readyEdges ?g3) \<subseteq> set (map edgeIndex (paddles ?g3))"
      using rdy edges by simp
  qed (use d1 d2 in simp_all)
  then have g4: "roomInvStrong (checkAllReady E (broadcastState ?g3))"
    by (intro checkAllReady_roomInvStrong broadcastState_roomInvStrong)
  then have "roomInvStrong (terminateGame ''A player left the game''
                              (checkAllReady E (broadcastState ?g3)))"
    by (rule terminateGame_roomInvStrong)
  with g4 show ?thesis
    by (simp add: removePlayer_unfold [OF Some] Let_def)
qed

lemma update_fresh:
  "map_of ps k = None \<Longrightarrow> AList.update k v ps = ps @ [(k, v)]"
  by (induction ps) (auto split: if_splits)

lemma addPlayer_roomInvStrong:
  assumes "roomInvStrong g" and "map_of (players g) socketId = None"
  shows "roomInvStrong (snd (addPlayer E socketId g))"
proof (cases "int (length (paddles g)) < sides g")
  case False
  with assms(1) show ?thesis by (simp add: addPlayer_full)
next
  case True
  from addPlayer_free [OF True, of E socketId]
  obtain e where e: "e \<notin> occupied g"
    and r: "addPlayer E socketId g
         = (e, broadcastState (g\<lparr>paddles := paddles g @ [newPaddle E e],
                                 players := AList.update socketId e (players g)\<rparr>))"
    by blast
  note inv = roomInvStrongD [OF assms(1)]
  from assms(2) have fresh: "socketId \<notin> fst ` set (players g)"
    by (simp add: map_of_eq_None_iff)
  from e have e1: "e \<notin> set (map edgeIndex (paddles g))"
    by (simp add: occupied_def)
  with inv(2) have e2: "e \<notin> set (map snd (players g))" by blast
  let ?g' = "g\<lparr>paddles := paddles g @ [newPaddle E e],
               players := AList.update socketId e (players g)\<rparr>"
  have p: "players ?g' = players g @ [(socketId, e)]"
    by (simp add: update_fresh [OF assms(2)])
  have "roomInvStrong ?g'"
  proof (rule roomInvStrongI)
    show "distinct (map edgeIndex (paddles ?g'))"
      using inv(1) e1 by (simp add: newPaddle_def)
    show "set (map edgeIndex (paddles ?g')) = set (map snd (players ?g'))"
      using inv(2) unfolding p by (simp add: newPaddle_def)
    show "set (readyEdges ?g') \<subseteq> set (map edgeIndex (paddles ?g'))"
      using inv(3) by auto
    show "distinct (map fst (players ?g'))"
      using inv(4) fresh unfolding p by simp
    show "distinct (map snd (players ?g'))"
      using inv(5) e2 unfolding p by simp
  qed
  then show ?thesis
    unfolding r by (simp add: broadcastState_roomInvStrong)
qed

lemma newServerGame_roomInvStrong:
  "paddles (superGame E) = [] \<Longrightarrow> roomInvStrong (start E (newServerGame E rid))"
  by (simp add: roomInvStrong_def roomInv_def start_def newServerGame_def)

lemma not_restarting_kept:
  assumes "\<not> restarting g"
  shows "\<not> restarting (toggleReady E socketId isReady g)"
    and "\<not> restarting (removePlayer E socketId g)"
    and "\<not> restarting (snd (addPlayer E socketId g))"
    and "\<not> restarting (handleInput socketId dir g)"
proof -
  show "\<not> restarting (toggleReady E socketId isReady g)"
    using assms by (simp add: toggleReady_def split: option.splits)
  show "\<not> restarting (removePlayer E socketId g)"
  proof (cases "map_of (players g) socketId")
    case None
    with assms show ?thesis by (simp add: removePlayer_def)
  next
    case (Some e)
    with assms show ?thesis by (simp add: removePlayer_unfold [OF Some] Let_def)
  qed
  show "\<not> restarting (snd (addPlayer E socketId g))"
    using assms by (simp add: addPlayer_def Let_def)
  show "\<not> restarting (handleInput socketId dir g)"
    using assms by (simp add: handleInput_def split: option.splits)
qed

lemma joinedOnce_eval:
  "players joinedOnce = [(''a'', 0)]" "map edgeIndex (paddles joinedOnce) = [0]"
  "readyEdges joinedOnce = []" "sides joinedOnce = 5"
  by (simp_all add: joinedOnce_def freshRoom_def addPlayer_def firstFreeEdge.simps start_def
        newServerGame_def exampleEnv_def blankGame_def broadcastState_def newPaddle_def Let_def)

lemma joinedTwice_eval:
  "players joinedTwice = [(''a'', 1)]" "map edgeIndex (paddles joinedTwice) = [0, 1]"
  "readyEdges joinedTwice = []"
proof -
  have l: "length (paddles joinedOnce) = 1"
    using joinedOnce_eval(2) by (metis length_map length_Cons list.size(3) One_nat_def)
  have f: "firstFreeEdge {0} 5 0 = 1"
    by (simp add: firstFreeEdge.simps)
  show "players joinedTwice = [(''a'', 1)]" "map edgeIndex (paddles joinedTwice) = [0, 1]"
    "readyEdges joinedTwice = []"
    using joinedOnce_eval l f
    by (simp_all add: joinedTwice_def addPlayer_def broadcastState_def newPaddle_def Let_def)
qed

text \<open>
  C10. The invariant (paddle edges pairwise distinct and equal, as a set, to the values
  of the players map; ready edges among them) is what the operations are written to
  keep, and the lemmas above show that they keep it as long as a connection joins a
  room once. The code misses the join of a connection that is already in the players
  map: after \<open>addPlayer(a)\<close> on a new room the invariant holds; after a second
  \<open>addPlayer(a)\<close> the players map is \<open>a \<mapsto> 1\<close> while the paddles sit on edges 0 and 1, so
  the paddle on edge 0 belongs to nobody and the invariant is broken.
\<close>

theorem C10_duplicate_join_breaks_invariant:
  "roomInv joinedOnce
   \<and> players joinedTwice = [(''a'', 1)]
   \<and> map edgeIndex (paddles joinedTwice) = [0, 1]
   \<and> \<not> roomInv joinedTwice"
  by (simp add: roomInv_def joinedOnce_eval joinedTwice_eval)

section \<open>No restart from other calls during the celebration\<close>

lemma checkAllReady_restart_needs_zero:
  assumes "gameState g = SCORING" and "gameState (checkAllReady E g) = COUNTDOWN"
  shows "celebrationTimer g \<le> 0"
proof (rule ccontr)
  assume "\<not> celebrationTimer g \<le> 0"
  then have "checkAllReady E g = g" by (simp add: checkAllReady_celebrating)
  with assms show False by simp
qed

lemma removePlayer_celebrating:
  assumes "gameState g = SCORING" and "celebrationTimer g > 0"
  shows "gameState (removePlayer E socketId g) = SCORING"
proof (cases "map_of (players g) socketId")
  case None
  with assms show ?thesis by (simp add: removePlayer_def)
next
  case (Some e)
  let ?b = "broadcastState (g\<lparr>players := AList.delete socketId (players g),
                             readyEdges := removeAll e (readyEdges g),
                             paddles := filter (\<lambda>p. edgeIndex p \<noteq> e) (paddles g)\<rparr>)"
  from assms have "celebrationTimer ?b > 0" "gameState ?b = SCORING" by simp_all
  then have "checkAllReady E ?b = ?b" "gameState ?b = SCORING"
    by (simp_all add: checkAllReady_celebrating)
  then show ?thesis
    by (simp add: removePlayer_unfold [OF Some] Let_def)
qed

section \<open>Paddle edges stay pairwise distinct\<close>

text \<open>Whatever the connection ids, every operation keeps the paddle edges pairwise
  distinct: a new paddle gets an edge no paddle has, and the other operations only
  remove paddles or leave their edges alone.\<close>

lemma setFirstDirection_edges [simp]:
  "map edgeIndex (setFirstDirection e d ps) = map edgeIndex ps"
  by (induction ps) simp_all

lemma paddle_edges_distinct_kept:
  assumes "distinct (map edgeIndex (paddles g))"
  shows "distinct (map edgeIndex (paddles (snd (addPlayer E socketId g))))"
    and "distinct (map edgeIndex (paddles (removePlayer E socketId g)))"
    and "distinct (map edgeIndex (paddles (toggleReady E socketId isReady g)))"
    and "distinct (map edgeIndex (paddles (resetGame E g)))"
    and "distinct (map edgeIndex (paddles (handleInput socketId dir g)))"
proof -
  show "distinct (map edgeIndex (paddles (snd (addPlayer E socketId g))))"
  proof (cases "int (length (paddles g)) < sides g")
    case False
    with assms show ?thesis by (simp add: addPlayer_full)
  next
    case True
    from addPlayer_free [OF True, of E socketId]
    obtain e where "e \<notin> occupied g"
      and "addPlayer E socketId g
           = (e, broadcastState (g\<lparr>paddles := paddles g @ [newPaddle E e],
                                   players := AList.update socketId e (players g)\<rparr>))"
      by blast
    with assms show ?thesis by (simp add: occupied_def newPaddle_def)
  qed
  show "distinct (map edgeIndex (paddles (removePlayer E socketId g)))"
  proof (cases "map_of (players g) socketId")
    case None
    with assms show ?thesis by (simp add: removePlayer_def)
  next
    case (Some e)
    from assms have "distinct (map edgeIndex (filter (\<lambda>p. edgeIndex p \<noteq> e) (paddles g)))"
      by (rule distinct_map_filter)
    then show ?thesis by (simp add: removePlayer_unfold [OF Some] Let_def)
  qed
  show "distinct (map edgeIndex (paddles (toggleReady E socketId isReady g)))"
    using assms by (simp add: toggleReady_def split: option.splits)
  show "distinct (map edgeIndex (paddles (resetGame E g)))"
    using assms by simp
  show "distinct (map edgeIndex (paddles (handleInput socketId dir g)))"
    using assms by (simp add: handleInput_def split: option.splits)
qed

section \<open>The time delta of a tick\<close>


text \<open>A base step that stores the delta it is given shows which delta \<open>loop\<close> hands
  over.\<close>

lemma loop_dt_observed:
  "timeElapsed (loop (E\<lparr>superUpdate := (\<lambda>dt g. Inr (g\<lparr>timeElapsed := dt\<rparr>))\<rparr>) g)
     = loopDt (lastTime g) (now E)"
  by (simp add: loop_def update_def broadcastState_def Let_def)




lemma lastTime_plain [simp]:
  "lastTime (broadcastState g) = lastTime g"
  "lastTime (terminateGame reason g) = lastTime g"
  "lastTime (stop g) = lastTime g"
  "lastTime (handleInput socketId dir g) = lastTime g"
  "lastTime (snd (addPlayer E socketId g)) = lastTime g"
  by (simp_all add: broadcastState_def terminateGame_def setGameState_def stop_def Let_def
        handleInput_def addPlayer_def split: option.splits)







lemma baseKeepsLastTime_atTime [simp]:
  "baseKeepsLastTime (atTime E t) = baseKeepsLastTime E"
  by (simp add: baseKeepsLastTime_def atTime_def)

lemma now_atTime [simp]: "now (atTime E t) = t"
  by (simp add: atTime_def)







end
